theory Spec2Isabelle
  imports Main "HOL-Library.Word"
begin

section \<open>Strings of UTF-16 code units\<close>

text \<open>
  A JavaScript string is a sequence of 16-bit code units. The regular expressions of the
  program carry no flag, so they match code unit by code unit. \<open>js\<close> turns a literal of
  the source (ASCII) into such a string.
\<close>

type_synonym code_unit = "16 word"
type_synonym jsstring = "code_unit list"

definition js :: "string \<Rightarrow> jsstring" where
  "js s = map (\<lambda>c. of_nat (of_char c)) s"

text \<open>
  The code units that the class escape \<^verbatim>\<open>\s\<close> matches and that
  \<^verbatim>\<open>String.prototype.trim\<close> strips: ECMAScript's WhiteSpace and LineTerminator.
\<close>

definition is_white_space :: "code_unit \<Rightarrow> bool" where
  "is_white_space c \<longleftrightarrow>
     c = 0x9 \<or> c = 0xA \<or> c = 0xB \<or> c = 0xC \<or> c = 0xD \<or> c = 0x20 \<or> c = 0xA0 \<or>
     c = 0x1680 \<or> (0x2000 \<le> c \<and> c \<le> 0x200A) \<or> c = 0x2028 \<or> c = 0x2029 \<or>
     c = 0x202F \<or> c = 0x205F \<or> c = 0x3000 \<or> c = 0xFEFF"

definition trim :: "jsstring \<Rightarrow> jsstring" where
  "trim s = rev (dropWhile is_white_space (rev (dropWhile is_white_space s)))"

definition at_sign :: code_unit where "at_sign = 0x40"
definition full_stop :: code_unit where "full_stop = 0x2E"
definition quotation_mark :: code_unit where "quotation_mark = 0x22"
definition apostrophe :: code_unit where "apostrophe = 0x27"
definition reverse_solidus :: code_unit where "reverse_solidus = 0x5C"
definition line_feed :: code_unit where "line_feed = 0xA"

section \<open>Regular expressions\<close>

text \<open>
  The syntax of the patterns the program uses, and a matcher by derivatives.
  \<open>NotIn items\<close> is a negated class \<^verbatim>\<open>[^...]\<close>, \<open>Plus r\<close> is \<^verbatim>\<open>r+\<close>.
  Both patterns of the program have the form \<^verbatim>\<open>/^r$/\<close> without flags, so
  \<^verbatim>\<open>test\<close> succeeds exactly when the whole string matches \<open>r\<close>: this is
  \<open>matches r\<close>, and the two anchors are not part of the syntax tree.
\<close>

datatype class_item = ClassSpace | ClassChar code_unit

datatype regex =
    Never
  | Empty
  | Char code_unit
  | NotIn "class_item list"
  | Seq regex regex
  | Alt regex regex
  | Plus regex

fun class_matches :: "class_item \<Rightarrow> code_unit \<Rightarrow> bool" where
  "class_matches ClassSpace c = is_white_space c"
| "class_matches (ClassChar d) c = (c = d)"

fun nullable :: "regex \<Rightarrow> bool" where
  "nullable Never = False"
| "nullable Empty = True"
| "nullable (Char d) = False"
| "nullable (NotIn items) = False"
| "nullable (Seq a b) = (nullable a \<and> nullable b)"
| "nullable (Alt a b) = (nullable a \<or> nullable b)"
| "nullable (Plus a) = nullable a"

fun deriv :: "code_unit \<Rightarrow> regex \<Rightarrow> regex" where
  "deriv c Never = Never"
| "deriv c Empty = Never"
| "deriv c (Char d) = (if c = d then Empty else Never)"
| "deriv c (NotIn items) = (if \<exists>i \<in> set items. class_matches i c then Never else Empty)"
| "deriv c (Seq a b) =
     (if nullable a then Alt (Seq (deriv c a) b) (deriv c b) else Seq (deriv c a) b)"
| "deriv c (Alt a b) = Alt (deriv c a) (deriv c b)"
| "deriv c (Plus a) = Seq (deriv c a) (Alt Empty (Plus a))"

fun matches :: "regex \<Rightarrow> jsstring \<Rightarrow> bool" where
  "matches r [] = nullable r"
| "matches r (c # cs) = matches (deriv c r) cs"

text \<open>The sub-pattern \<^verbatim>\<open>[^\s@]+\<close>, which both patterns repeat three times.\<close>

definition part :: regex where
  "part = Plus (NotIn [ClassSpace, ClassChar at_sign])"

text \<open>\<^verbatim>\<open>const EMAIL_RE = /^[^\s@]+@[^\s@]+\.[^\s@]+$/;\<close> (the handler).\<close>

definition EMAIL_RE :: regex where
  "EMAIL_RE = Seq part (Seq (Char at_sign) (Seq part (Seq (Char full_stop) part)))"

text \<open>
  \<^verbatim>\<open>validateEmail\<close> (the client) tests its own copy of the pattern. The debug line it
  prints has no part in the result and is left out.
\<close>

definition validateEmail :: "jsstring \<Rightarrow> bool" where
  "validateEmail email =
     matches (Seq part (Seq (Char at_sign) (Seq part (Seq (Char full_stop) part)))) email"

text \<open>
  The set of strings a pattern denotes, used to reason about \<open>matches\<close>.
  \<open>repeated L\<close> holds the concatenations of one or more members of \<open>L\<close>.
\<close>

inductive_set repeated :: "'a list set \<Rightarrow> 'a list set" for L :: "'a list set" where
  once: "w \<in> L \<Longrightarrow> w \<in> repeated L"
| again: "u \<in> L \<Longrightarrow> v \<in> repeated L \<Longrightarrow> u @ v \<in> repeated L"

fun lang :: "regex \<Rightarrow> jsstring set" where
  "lang Never = {}"
| "lang Empty = {[]}"
| "lang (Char d) = {[d]}"
| "lang (NotIn items) = {[c] | c. \<not> (\<exists>i \<in> set items. class_matches i c)}"
| "lang (Seq a b) = {u @ v | u v. u \<in> lang a \<and> v \<in> lang b}"
| "lang (Alt a b) = lang a \<union> lang b"
| "lang (Plus a) = repeated (lang a)"

definition address_char :: "code_unit \<Rightarrow> bool" where
  "address_char c \<longleftrightarrow> \<not> is_white_space c \<and> c \<noteq> at_sign"

section \<open>JSON values\<close>

text \<open>
  The values \<^verbatim>\<open>request.json()\<close> can produce, and the objects the program serialises.
  An object is the list of its own properties in insertion order. A number is kept by
  what this program can observe of it: whether it is truthy (neither zero nor NaN), and
  its image under \<^verbatim>\<open>String\<close>. The program serialises no number.
\<close>

datatype json =
    JNull
  | JBool bool
  | JNum bool jsstring
  | JStr jsstring
  | JArr "json list"
  | JObj "(jsstring \<times> json) list"

datatype exn = TypeError | PutRejected | FetchRejected | TextRejected | NetworkError

text \<open>
  \<^verbatim>\<open>data?.key\<close> for the keys \<^verbatim>\<open>email\<close> and \<^verbatim>\<open>note\<close>, which no prototype
  defines: the own property of an object, and \<^verbatim>\<open>undefined\<close> (\<open>None\<close>) for
  \<^verbatim>\<open>null\<close> and for every other value.
\<close>

fun get_field :: "json \<Rightarrow> jsstring \<Rightarrow> json option" where
  "get_field (JObj props) key = map_of props key"
| "get_field _ key = None"

fun truthy :: "json \<Rightarrow> bool" where
  "truthy JNull = False"
| "truthy (JBool b) = b"
| "truthy (JNum t text) = t"
| "truthy (JStr s) = (s \<noteq> [])"
| "truthy (JArr xs) = True"
| "truthy (JObj props) = True"

text \<open>\<^verbatim>\<open>v || ""\<close>\<close>

definition or_empty :: "json option \<Rightarrow> json" where
  "or_empty v = (case v of None \<Rightarrow> JStr [] | Some x \<Rightarrow> if truthy x then x else JStr [])"

fun join_with :: "jsstring \<Rightarrow> jsstring list \<Rightarrow> jsstring" where
  "join_with sep [] = []"
| "join_with sep [x] = x"
| "join_with sep (x # y # ys) = x @ sep @ join_with sep (y # ys)"

fun sequence :: "(exn + 'a) list \<Rightarrow> exn + 'a list" where
  "sequence [] = Inr []"
| "sequence (Inl e # rs) = Inl e"
| "sequence (Inr x # rs) = (case sequence rs of Inl e \<Rightarrow> Inl e | Inr xs \<Rightarrow> Inr (x # xs))"

text \<open>
  \<^verbatim>\<open>String(v)\<close>. An array is joined with commas, \<^verbatim>\<open>null\<close> elements giving the
  empty string. A parsed object has no callable property, so one with an own
  \<^verbatim>\<open>toString\<close> property cannot be converted and the call throws a TypeError; any
  other object gives \<^verbatim>\<open>[object Object]\<close>.
\<close>

fun String :: "json \<Rightarrow> exn + jsstring" where
  "String JNull = Inr (js ''null'')"
| "String (JBool b) = Inr (if b then js ''true'' else js ''false'')"
| "String (JNum t text) = Inr text"
| "String (JStr s) = Inr s"
| "String (JArr xs) =
     (case sequence (map (\<lambda>x. if x = JNull then Inr [] else String x) xs) of
        Inl e \<Rightarrow> Inl e
      | Inr parts \<Rightarrow> Inr (join_with (js '','') parts))"
| "String (JObj props) =
     (if map_of props (js ''toString'') \<noteq> None then Inl TypeError
      else Inr (js ''[object Object]''))"

subsection \<open>\<^verbatim>\<open>JSON.stringify\<close>\<close>

definition hex_digit :: "nat \<Rightarrow> code_unit" where
  "hex_digit n = (if n < 10 then of_nat (48 + n) else of_nat (87 + n))"

definition unicode_escape :: "code_unit \<Rightarrow> jsstring" where
  "unicode_escape c =
     [reverse_solidus, 0x75,
      hex_digit (unat c div 4096), hex_digit (unat c div 256 mod 16),
      hex_digit (unat c div 16 mod 16), hex_digit (unat c mod 16)]"

definition is_high_surrogate :: "code_unit \<Rightarrow> bool" where
  "is_high_surrogate c \<longleftrightarrow> 0xD800 \<le> c \<and> c \<le> 0xDBFF"

definition is_low_surrogate :: "code_unit \<Rightarrow> bool" where
  "is_low_surrogate c \<longleftrightarrow> 0xDC00 \<le> c \<and> c \<le> 0xDFFF"

definition quote_unit :: "code_unit \<Rightarrow> jsstring" where
  "quote_unit c =
     (if c = 0x8 then [reverse_solidus, 0x62]
      else if c = 0x9 then [reverse_solidus, 0x74]
      else if c = 0xA then [reverse_solidus, 0x6E]
      else if c = 0xC then [reverse_solidus, 0x66]
      else if c = 0xD then [reverse_solidus, 0x72]
      else if c = quotation_mark then [reverse_solidus, quotation_mark]
      else if c = reverse_solidus then [reverse_solidus, reverse_solidus]
      else if c < 0x20 \<or> is_high_surrogate c \<or> is_low_surrogate c then unicode_escape c
      else [c])"

fun quote_units :: "jsstring \<Rightarrow> jsstring" where
  "quote_units [] = []"
| "quote_units [c] = quote_unit c"
| "quote_units (c # d # cs) =
     (if is_high_surrogate c \<and> is_low_surrogate d then c # d # quote_units cs
      else quote_unit c @ quote_units (d # cs))"

definition quote :: "jsstring \<Rightarrow> jsstring" where
  "quote s = [quotation_mark] @ quote_units s @ [quotation_mark]"

fun stringify :: "json \<Rightarrow> jsstring" where
  "stringify JNull = js ''null''"
| "stringify (JBool b) = (if b then js ''true'' else js ''false'')"
| "stringify (JNum t text) = text"
| "stringify (JStr s) = quote s"
| "stringify (JArr xs) = js ''['' @ join_with (js '','') (map stringify xs) @ js '']''"
| "stringify (JObj props) =
     js ''{'' @ join_with (js '','') (map (\<lambda>p. quote (fst p) @ js '':'' @ stringify (snd p)) props)
     @ js ''}''"

section \<open>The waitlist intake handler\<close>

text \<open>
  \<^verbatim>\<open>`${Date.now()}`\<close>: the time value is an integer far below \<open>10^21\<close>, which
  \<^verbatim>\<open>String\<close> writes in plain decimal.
\<close>

fun digits :: "nat \<Rightarrow> jsstring" where
  "digits n = (if n < 10 then [of_nat (48 + n)] else digits (n div 10) @ [of_nat (48 + n mod 10)])"

declare digits.simps [simp del]

definition number_text :: "int \<Rightarrow> jsstring" where
  "number_text i = (if i < 0 then js ''-'' @ digits (nat (- i)) else digits (nat i))"

text \<open>
  The request as the handler reads it: what \<^verbatim>\<open>request.json()\<close> resolves to
  (\<open>None\<close> when it rejects: the body is not JSON), and the headers, under their
  lower-case names; \<^verbatim>\<open>headers.get\<close> gives \<^verbatim>\<open>null\<close> (\<open>None\<close>) for a header
  that is absent.
\<close>

record request =
  json_body :: "json option"
  headers :: "(jsstring \<times> jsstring) list"

text \<open>
  \<^verbatim>\<open>interface Env\<close>. \<open>WAITLIST\<close> tells whether the key-value binding is present.
\<close>

record env =
  RESEND_API_KEY :: "jsstring option"
  NOTIFY_TO :: "jsstring option"
  WAITLIST :: bool

text \<open>
  What \<^verbatim>\<open>fetch\<close> does: it rejects, or resolves to a response with its
  \<^verbatim>\<open>ok\<close> flag, its status and what \<^verbatim>\<open>text()\<close> gives (\<open>None\<close> when reading the
  body rejects).
\<close>

datatype fetch_outcome = Rejects | Responds bool nat "jsstring option"

text \<open>
  Everything the handler reads from outside during one run, in the order of the source:
  \<^verbatim>\<open>Date.now()\<close>, \<^verbatim>\<open>crypto.randomUUID()\<close>, the two calls of
  \<^verbatim>\<open>new Date().toISOString()\<close>, whether \<^verbatim>\<open>WAITLIST.put\<close> resolves, and the
  outcome of the \<^verbatim>\<open>fetch\<close> to the mail provider.
\<close>

record world =
  date_now :: int
  random_uuid :: jsstring
  iso_record :: jsstring
  iso_mail :: jsstring
  put_resolves :: bool
  provider :: fetch_outcome

text \<open>What a run does to the outside, in order.\<close>

datatype effect =
    KvPut jsstring jsstring
  | HttpPost jsstring "(jsstring \<times> jsstring) list" jsstring
  | LogResendFailed nat jsstring
  | LogError exn

record response =
  status_code :: nat
  init_headers :: "(jsstring \<times> jsstring) list"
  body :: jsstring

definition invalid_email :: response where
  "invalid_email =
     \<lparr>status_code = 400, init_headers = [],
      body = stringify (JObj [(js ''ok'', JBool False), (js ''error'', JStr (js ''Invalid email''))])\<rparr>"

definition accepted :: response where
  "accepted =
     \<lparr>status_code = 200, init_headers = [(js ''Content-Type'', js ''application/json'')],
      body = stringify (JObj [(js ''ok'', JBool True)])\<rparr>"

definition server_error :: response where
  "server_error =
     \<lparr>status_code = 500, init_headers = [],
      body = stringify (JObj [(js ''ok'', JBool False), (js ''error'', JStr (js ''Server error''))])\<rparr>"

text \<open>
  Lines 12 to 14: the parsed body, or \<^verbatim>\<open>{}\<close> when parsing fails; then the two fields,
  coerced to strings and trimmed.
\<close>

definition read_fields :: "request \<Rightarrow> exn + jsstring \<times> jsstring" where
  "read_fields req =
     (let data = (case json_body req of None \<Rightarrow> JObj [] | Some d \<Rightarrow> d) in
      case String (or_empty (get_field data (js ''email''))) of
        Inl e \<Rightarrow> Inl e
      | Inr email_text \<Rightarrow>
          (case String (or_empty (get_field data (js ''note''))) of
             Inl e \<Rightarrow> Inl e
           | Inr note_text \<Rightarrow> Inr (trim email_text, trim note_text)))"

definition nullable_string :: "jsstring option \<Rightarrow> json" where
  "nullable_string v = (case v of None \<Rightarrow> JNull | Some s \<Rightarrow> JStr s)"

text \<open>Lines 21 to 27: the key and the value of the record.\<close>

definition record_key :: "world \<Rightarrow> jsstring" where
  "record_key w = js ''waitlist:'' @ number_text (date_now w) @ js '':'' @ random_uuid w"

definition record_value :: "request \<Rightarrow> world \<Rightarrow> jsstring \<Rightarrow> jsstring \<Rightarrow> jsstring" where
  "record_value req w email note =
     stringify (JObj
       [(js ''email'', JStr email), (js ''note'', JStr note),
        (js ''ua'', nullable_string (map_of (headers req) (js ''user-agent''))),
        (js ''ip'', nullable_string (map_of (headers req) (js ''cf-connecting-ip''))),
        (js ''at'', JStr (iso_record w))])"

text \<open>
  Lines 20 to 28. The result is the exception thrown, if any, and the effects. A
  \<^verbatim>\<open>put\<close> that rejects throws at the \<^verbatim>\<open>await\<close>.
\<close>

definition store ::
  "request \<Rightarrow> env \<Rightarrow> world \<Rightarrow> jsstring \<Rightarrow> jsstring \<Rightarrow> exn option \<times> effect list" where
  "store req e w email note =
     (if WAITLIST e then
        (if put_resolves w then None else Some PutRejected,
         [KvPut (record_key w) (record_value req w email note)])
      else (None, []))"

text \<open>An optional string of the environment is truthy when it is present and not empty.\<close>

definition configured :: "jsstring option \<Rightarrow> bool" where
  "configured v = (case v of None \<Rightarrow> False | Some s \<Rightarrow> s \<noteq> [])"

text \<open>\<^verbatim>\<open>note.replace(/</g, "&lt;")\<close>\<close>

definition escape_lt :: "jsstring \<Rightarrow> jsstring" where
  "escape_lt s = concat (map (\<lambda>c. if c = 0x3C then js ''&lt;'' else [c]) s)"

definition mail_subject :: "jsstring \<Rightarrow> jsstring" where
  "mail_subject email = js ''erlySense waitlist: '' @ email"

definition mail_html :: "world \<Rightarrow> jsstring \<Rightarrow> jsstring \<Rightarrow> jsstring" where
  "mail_html w email note =
     [line_feed] @ js ''        <h2>New waitlist interest</h2>'' @
     [line_feed] @ js ''        <p><strong>Email:</strong> '' @ email @ js ''</p>'' @
     [line_feed] @ js ''        <p><strong>Note:</strong> '' @
       (if note \<noteq> [] then escape_lt note else js ''(none)'') @ js ''</p>'' @
     [line_feed] @ js ''        <p style='' @ [quotation_mark] @ js ''color:#888'' @
       [quotation_mark] @ js ''>Source: coming-soon @ '' @ iso_mail w @ js ''</p>'' @
     [line_feed] @ js ''      ''"

definition mail_request :: "env \<Rightarrow> world \<Rightarrow> jsstring \<Rightarrow> jsstring \<Rightarrow> effect" where
  "mail_request e w email note =
     HttpPost (js ''https://api.resend.com/emails'')
       [(js ''Authorization'', js ''Bearer '' @ the (RESEND_API_KEY e)),
        (js ''Content-Type'', js ''application/json'')]
       (stringify (JObj
          [(js ''from'', JStr (js ''erlySense <noreply@mail.erlysense.example>'')),
           (js ''to'', JArr [JStr (the (NOTIFY_TO e))]),
           (js ''subject'', JStr (mail_subject email)),
           (js ''html'', JStr (mail_html w email note))]))"

text \<open>
  Lines 31 to 58. A \<^verbatim>\<open>fetch\<close> that rejects throws, and so does a
  \<^verbatim>\<open>text()\<close> that rejects; a response that is not \<^verbatim>\<open>ok\<close> is logged.
\<close>

definition notify :: "env \<Rightarrow> world \<Rightarrow> jsstring \<Rightarrow> jsstring \<Rightarrow> exn option \<times> effect list" where
  "notify e w email note =
     (if configured (RESEND_API_KEY e) \<and> configured (NOTIFY_TO e) then
        (case provider w of
           Rejects \<Rightarrow> (Some FetchRejected, [mail_request e w email note])
         | Responds ok code text \<Rightarrow>
             if \<not> ok then
               (case text of
                  None \<Rightarrow> (Some TextRejected, [mail_request e w email note])
                | Some t \<Rightarrow> (None, [mail_request e w email note, LogResendFailed code t]))
             else (None, [mail_request e w email note]))
      else (None, []))"

text \<open>The body of the \<^verbatim>\<open>try\<close>: the response returned or the exception thrown.\<close>

definition try_block :: "request \<Rightarrow> env \<Rightarrow> world \<Rightarrow> (exn + response) \<times> effect list" where
  "try_block req e w =
     (case read_fields req of
        Inl x \<Rightarrow> (Inl x, [])
      | Inr (email, note) \<Rightarrow>
          if \<not> matches EMAIL_RE email then (Inr invalid_email, [])
          else
            (case store req e w email note of
               (Some x, stored) \<Rightarrow> (Inl x, stored)
             | (None, stored) \<Rightarrow>
                 (case notify e w email note of
                    (Some x, sent) \<Rightarrow> (Inl x, stored @ sent)
                  | (None, sent) \<Rightarrow> (Inr accepted, stored @ sent))))"

text \<open>\<^verbatim>\<open>onRequestPost\<close>: the \<^verbatim>\<open>catch\<close> logs the exception and answers 500.\<close>

definition onRequestPost :: "request \<Rightarrow> env \<Rightarrow> world \<Rightarrow> response \<times> effect list" where
  "onRequestPost req e w =
     (case try_block req e w of
        (Inr r, done) \<Rightarrow> (r, done)
      | (Inl x, done) \<Rightarrow> (server_error, done @ [LogError x]))"

section \<open>The client form controller\<close>

text \<open>
  \<^verbatim>\<open>INTEREST_ENDPOINT\<close>: the build-time variable \<^verbatim>\<open>VITE_INTEREST_ENDPOINT\<close> when it
  is set and truthy, the default path otherwise.
\<close>

definition INTEREST_ENDPOINT :: "jsstring option \<Rightarrow> jsstring" where
  "INTEREST_ENDPOINT vite = (if configured vite then the vite else js ''/api/interest'')"

text \<open>The state of the component that \<^verbatim>\<open>handleSubmit\<close> reads or writes.\<close>

record form_state =
  email :: jsstring
  "note" :: jsstring
  trap :: jsstring
  isLoading :: bool
  status :: "(bool \<times> jsstring) option"

definition msg_invalid :: jsstring where
  "msg_invalid = js ''Please enter a valid email.''"

definition msg_thanks :: jsstring where
  "msg_thanks = js ''Thanks! We'' @ [apostrophe] @ js ''ll be in touch soon.''"

definition msg_wrong :: jsstring where
  "msg_wrong = js ''Something went wrong. Please try again.''"

definition submit_request :: "jsstring \<Rightarrow> form_state \<Rightarrow> effect" where
  "submit_request endpoint s =
     HttpPost endpoint [(js ''Content-Type'', js ''application/json'')]
       (stringify (JObj
          [(js ''email'', JStr (email s)), (js ''note'', JStr (note s)),
           (js ''source'', JStr (js ''coming-soon''))]))"

text \<open>
  The body of the \<^verbatim>\<open>try\<close> of \<^verbatim>\<open>handleSubmit\<close>: the exception thrown, if any,
  the state reached and the requests issued.
\<close>

definition submit_try ::
  "jsstring \<Rightarrow> form_state \<Rightarrow> fetch_outcome \<Rightarrow> exn option \<times> form_state \<times> effect list" where
  "submit_try endpoint s outcome =
     (let s1 = s\<lparr>isLoading := True, status := None\<rparr> in
      case outcome of
        Rejects \<Rightarrow> (Some FetchRejected, s1, [submit_request endpoint s])
      | Responds ok code text \<Rightarrow>
          if \<not> ok then (Some NetworkError, s1, [submit_request endpoint s])
          else (None, s1\<lparr>status := Some (True, msg_thanks), email := [], note := []\<rparr>,
                [submit_request endpoint s]))"

text \<open>
  \<^verbatim>\<open>handleSubmit\<close>, run to completion: the state of the component afterwards and the
  requests issued. The \<^verbatim>\<open>catch\<close> sets the failure status, the \<^verbatim>\<open>finally\<close>
  clears the flag. (\<^verbatim>\<open>e.preventDefault()\<close> acts on the event, not on the component.)
\<close>

definition handleSubmit ::
  "jsstring \<Rightarrow> form_state \<Rightarrow> fetch_outcome \<Rightarrow> form_state \<times> effect list" where
  "handleSubmit endpoint s outcome =
     (if trap s \<noteq> [] then (s, [])
      else if \<not> validateEmail (email s) then (s\<lparr>status := Some (False, msg_invalid)\<rparr>, [])
      else
        (case submit_try endpoint s outcome of
           (None, s2, sent) \<Rightarrow> (s2\<lparr>isLoading := False\<rparr>, sent)
         | (Some x, s2, sent) \<Rightarrow>
             (s2\<lparr>status := Some (False, msg_wrong), isLoading := False\<rparr>, sent)))"

text \<open>
  The state of the component while the \<^verbatim>\<open>fetch\<close> of a submission is awaited:
  \<^verbatim>\<open>setIsLoading(true); setStatus(null)\<close> have run, the \<^verbatim>\<open>finally\<close> has
  not. The form still takes edits and submit events in this state.
\<close>

definition awaiting :: "form_state \<Rightarrow> form_state" where
  "awaiting s = s\<lparr>isLoading := True, status := None\<rparr>"

section \<open>Vocabulary of the properties\<close>

text \<open>The downstream calls that throw in a run, read off \<open>store\<close> and \<open>notify\<close>.\<close>

definition store_throws :: "env \<Rightarrow> world \<Rightarrow> bool" where
  "store_throws e w \<longleftrightarrow> WAITLIST e \<and> \<not> put_resolves w"

definition notify_throws :: "env \<Rightarrow> world \<Rightarrow> bool" where
  "notify_throws e w \<longleftrightarrow>
     configured (RESEND_API_KEY e) \<and> configured (NOTIFY_TO e) \<and>
     (case provider w of Rejects \<Rightarrow> True | Responds ok code text \<Rightarrow> \<not> ok \<and> text = None)"

definition downstream_throws :: "env \<Rightarrow> world \<Rightarrow> bool" where
  "downstream_throws e w \<longleftrightarrow> store_throws e w \<or> notify_throws e w"

fun is_put :: "effect \<Rightarrow> bool" where
  "is_put (KvPut k v) = True"
| "is_put _ = False"

text \<open>
  The value of the record as the specification words it, with the two header fields
  under the names \<^verbatim>\<open>userAgent\<close> and \<^verbatim>\<open>originIp\<close>; to be compared with
  \<open>record_value\<close>.
\<close>

definition spec_record_value :: "request \<Rightarrow> world \<Rightarrow> jsstring \<Rightarrow> jsstring \<Rightarrow> jsstring" where
  "spec_record_value req w a n =
     stringify (JObj
       [(js ''email'', JStr a), (js ''note'', JStr n),
        (js ''userAgent'', nullable_string (map_of (headers req) (js ''user-agent''))),
        (js ''originIp'', nullable_string (map_of (headers req) (js ''cf-connecting-ip''))),
        (js ''at'', JStr (iso_record w))])"

subsection \<open>Sample inputs\<close>

definition sample_request :: request where
  "sample_request =
     \<lparr>json_body = Some (JObj [(js ''email'', JStr (js ''a@b.co''))]),
      headers = [(js ''user-agent'', js ''curl'')]\<rparr>"

definition padded_request :: request where
  "padded_request =
     \<lparr>json_body = Some (JObj [(js ''email'', JStr (js '' a@b.co''))]), headers = []\<rparr>"

definition store_only :: env where
  "store_only = \<lparr>RESEND_API_KEY = None, NOTIFY_TO = None, WAITLIST = True\<rparr>"

definition notify_only :: env where
  "notify_only =
     \<lparr>RESEND_API_KEY = Some (js ''key''), NOTIFY_TO = Some (js ''f@e.co''), WAITLIST = False\<rparr>"

definition quiet_world :: world where
  "quiet_world =
     \<lparr>date_now = 1700000000000, random_uuid = js ''u-1'', iso_record = js ''2025-01-01T00:00:00.000Z'',
      iso_mail = js ''2025-01-01T00:00:00.001Z'', put_resolves = True,
      provider = Responds True 200 (Some [])\<rparr>"

definition typed_form :: form_state where
  "typed_form = \<lparr>email = js ''a@b.co'', note = [], trap = [], isLoading = False, status = None\<rparr>"

section \<open>The matcher decides the language\<close>

lemma repeated_Nil: "[] \<in> repeated L \<longleftrightarrow> [] \<in> L"
proof
  assume "[] \<in> repeated L"
  then show "[] \<in> L"
    by (induction "[] :: 'a list" rule: repeated.induct) auto
qed (rule repeated.once)

lemma repeated_Cons:
  "c # w \<in> repeated L \<longleftrightarrow> (\<exists>u v. w = u @ v \<and> c # u \<in> L \<and> (v = [] \<or> v \<in> repeated L))"
proof
  assume "c # w \<in> repeated L"
  then show "\<exists>u v. w = u @ v \<and> c # u \<in> L \<and> (v = [] \<or> v \<in> repeated L)"
  proof (induction "c # w" arbitrary: w rule: repeated.induct)
    case once
    then show ?case by force
  next
    case (again u v)
    show ?case
    proof (cases u)
      case Nil
      with again show ?thesis by simp
    next
      case (Cons x u')
      with again have "w = u' @ v" "c # u' \<in> L" by auto
      with again(2) show ?thesis by blast
    qed
  qed
next
  assume "\<exists>u v. w = u @ v \<and> c # u \<in> L \<and> (v = [] \<or> v \<in> repeated L)"
  then obtain u v where uv: "w = u @ v" "c # u \<in> L" "v = [] \<or> v \<in> repeated L" by blast
  from uv(3) show "c # w \<in> repeated L"
  proof
    assume "v = []" with uv show ?thesis by (simp add: repeated.once)
  next
    assume "v \<in> repeated L"
    with uv(2) have "(c # u) @ v \<in> repeated L" by (rule repeated.again)
    with uv(1) show ?thesis by simp
  qed
qed

lemma nullable_lang: "nullable r \<longleftrightarrow> [] \<in> lang r"
  by (induction r) (auto simp: repeated_Nil)

lemma deriv_lang: "w \<in> lang (deriv c r) \<longleftrightarrow> c # w \<in> lang r"
proof (induction r arbitrary: w)
  case (Seq a b)
  show ?case
  proof
    assume "w \<in> lang (deriv c (Seq a b))"
    then show "c # w \<in> lang (Seq a b)"
      using Seq
      by (fastforce simp: nullable_lang split: if_splits
            intro: exI[of _ "c # u" for u] exI[of _ "[]"])
  next
    assume "c # w \<in> lang (Seq a b)"
    then obtain u v where uv: "c # w = u @ v" "u \<in> lang a" "v \<in> lang b" by auto
    show "w \<in> lang (deriv c (Seq a b))"
    proof (cases u)
      case Nil
      with uv Seq show ?thesis by (auto simp: nullable_lang)
    next
      case (Cons x u')
      with uv Seq have "w = u' @ v" "u' \<in> lang (deriv c a)" by auto
      with uv(3) show ?thesis by auto
    qed
  qed
next
  case (Plus a)
  show ?case by (auto simp: repeated_Cons Plus)
qed auto

lemma matches_lang: "matches r w \<longleftrightarrow> w \<in> lang r"
  by (induction w arbitrary: r) (simp_all add: nullable_lang deriv_lang)

lemma repeated_singletons:
  "repeated {[c] | c. P c} = {w. w \<noteq> [] \<and> (\<forall>c \<in> set w. P c)}" (is "?R = ?S")
proof (rule set_eqI)
  fix w
  show "w \<in> ?R \<longleftrightarrow> w \<in> ?S"
  proof
    assume "w \<in> ?R"
    then show "w \<in> ?S" by (induction rule: repeated.induct) auto
  next
    assume "w \<in> ?S"
    then have "w \<noteq> []" "\<forall>c \<in> set w. P c" by auto
    then show "w \<in> ?R"
    proof (induction w)
      case Nil
      then show ?case by simp
    next
      case (Cons x xs)
      show ?case
      proof (cases xs)
        case Nil
        with Cons.prems show ?thesis by (auto intro: repeated.once)
      next
        case (Cons y ys)
        with Cons.IH Cons.prems have "xs \<in> ?R" by simp
        moreover from Cons.prems have "[x] \<in> {[c] | c. P c}" by simp
        ultimately have "[x] @ xs \<in> ?R" by (rule repeated.again[rotated])
        then show ?thesis by simp
      qed
    qed
  qed
qed

lemma lang_part: "lang part = {w. w \<noteq> [] \<and> (\<forall>c \<in> set w. address_char c)}"
proof -
  have "lang part = repeated {[c] | c. address_char c}"
    by (simp add: part_def address_char_def)
  then show ?thesis by (simp only: repeated_singletons)
qed

lemma lang_address:
  "w \<in> lang (Seq part (Seq (Char at_sign) (Seq part (Seq (Char full_stop) part)))) \<longleftrightarrow>
     (\<exists>l d t. w = l @ [at_sign] @ d @ [full_stop] @ t \<and> l \<noteq> [] \<and> d \<noteq> [] \<and> t \<noteq> [] \<and>
        (\<forall>c \<in> set (l @ d @ t). address_char c))"
  unfolding lang.simps lang_part by (simp add: ball_Un) blast

lemma address_needs_at:
  assumes "w \<in> lang (Seq part (Seq (Char at_sign) (Seq part (Seq (Char full_stop) part))))"
  shows "at_sign \<in> set w"
  using assms unfolding lang_address by auto

lemmas eval_regex =
  validateEmail_def EMAIL_RE_def js_def part_def at_sign_def full_stop_def is_white_space_def

section \<open>The validation predicate\<close>

text \<open>
  C1. The client's \<open>validateEmail\<close> and the handler's test of \<open>EMAIL_RE\<close> accept a string
  exactly when it is one or more characters that are neither white space nor an at sign,
  then an at sign, then one or more such characters, then a full stop, then one or more
  such characters, with nothing before or after. The string \<^verbatim>\<open>bad@domain\<close> is
  rejected, \<^verbatim>\<open>user+tag@domain.edu\<close> is accepted, and a string without an at sign is
  always rejected.
\<close>

theorem validateEmail_shape:
  "(validateEmail s \<longleftrightarrow>
      (\<exists>l d t. s = l @ [at_sign] @ d @ [full_stop] @ t \<and> l \<noteq> [] \<and> d \<noteq> [] \<and> t \<noteq> [] \<and>
         (\<forall>c \<in> set (l @ d @ t). \<not> is_white_space c \<and> c \<noteq> at_sign))) \<and>
   (matches EMAIL_RE s \<longleftrightarrow>
      (\<exists>l d t. s = l @ [at_sign] @ d @ [full_stop] @ t \<and> l \<noteq> [] \<and> d \<noteq> [] \<and> t \<noteq> [] \<and>
         (\<forall>c \<in> set (l @ d @ t). \<not> is_white_space c \<and> c \<noteq> at_sign))) \<and>
   \<not> validateEmail (js ''bad@domain'') \<and>
   validateEmail (js ''user+tag@domain.edu'') \<and>
   (at_sign \<notin> set s \<longrightarrow> \<not> validateEmail s)"
proof (intro conjI)
  show "validateEmail s \<longleftrightarrow>
      (\<exists>l d t. s = l @ [at_sign] @ d @ [full_stop] @ t \<and> l \<noteq> [] \<and> d \<noteq> [] \<and> t \<noteq> [] \<and>
         (\<forall>c \<in> set (l @ d @ t). \<not> is_white_space c \<and> c \<noteq> at_sign))"
    unfolding validateEmail_def matches_lang lang_address address_char_def ..
  show "matches EMAIL_RE s \<longleftrightarrow>
      (\<exists>l d t. s = l @ [at_sign] @ d @ [full_stop] @ t \<and> l \<noteq> [] \<and> d \<noteq> [] \<and> t \<noteq> [] \<and>
         (\<forall>c \<in> set (l @ d @ t). \<not> is_white_space c \<and> c \<noteq> at_sign))"
    unfolding EMAIL_RE_def matches_lang lang_address address_char_def ..
  show "\<not> validateEmail (js ''bad@domain'')"
    by (simp add: eval_regex)
  show "validateEmail (js ''user+tag@domain.edu'')"
    by (simp add: eval_regex)
  show "at_sign \<notin> set s \<longrightarrow> \<not> validateEmail s"
    unfolding validateEmail_def matches_lang using address_needs_at by blast
qed

theorem validateEmail_shape_witness:
  "(\<exists>l d t. js ''a@b.co'' = l @ [at_sign] @ d @ [full_stop] @ t \<and>
       l \<noteq> [] \<and> d \<noteq> [] \<and> t \<noteq> [] \<and>
       (\<forall>c \<in> set (l @ d @ t). \<not> is_white_space c \<and> c \<noteq> at_sign)) \<and>
   at_sign \<notin> set (js ''no-at'') \<and> \<not> validateEmail (js ''no-at'')"
proof -
  have "validateEmail (js ''a@b.co'')"
    by (simp add: eval_regex)
  moreover have "at_sign \<notin> set (js ''no-at'')"
    by (simp add: js_def at_sign_def)
  ultimately show ?thesis
    using validateEmail_shape [of "js ''a@b.co''"] validateEmail_shape [of "js ''no-at''"]
    by blast
qed

section \<open>Facts about the handler and the client\<close>

lemmas eval_handler =
  onRequestPost_def try_block_def read_fields_def or_empty_def trim_def Let_def store_def
  notify_def configured_def sample_request_def padded_request_def store_only_def notify_only_def
  quiet_world_def

lemma matches_EMAIL_RE: "matches EMAIL_RE s = validateEmail s"
  by (simp add: validateEmail_def EMAIL_RE_def)

lemma validateEmail_units:
  assumes "validateEmail s"
  shows "s \<noteq> []" and "\<forall>c \<in> set s. \<not> is_white_space c"
proof -
  from assms obtain l d t where s: "s = l @ [at_sign] @ d @ [full_stop] @ t"
    and units: "\<forall>c \<in> set (l @ d @ t). address_char c"
    unfolding validateEmail_def matches_lang lang_address by blast
  from s show "s \<noteq> []" by simp
  have "\<not> is_white_space at_sign" "\<not> is_white_space full_stop"
    by (simp_all add: is_white_space_def at_sign_def full_stop_def)
  with s units show "\<forall>c \<in> set s. \<not> is_white_space c"
    by (auto simp: address_char_def)
qed

lemma validateEmail_parts:
  assumes "l \<noteq> []" "d \<noteq> []" "t \<noteq> []"
    and "\<forall>c \<in> set (l @ d @ t). \<not> is_white_space c \<and> c \<noteq> at_sign"
  shows "validateEmail (l @ [at_sign] @ d @ [full_stop] @ t)"
  unfolding validateEmail_def matches_lang lang_address address_char_def
  using assms by blast

lemma read_fields_malformed: "json_body req = None \<Longrightarrow> read_fields req = Inr ([], [])"
  by (simp add: read_fields_def or_empty_def trim_def Let_def)

lemma EMAIL_RE_not_nullable: "\<not> nullable EMAIL_RE"
  by (simp add: EMAIL_RE_def part_def)

lemma status_codes:
  "status_code invalid_email = 400" "status_code accepted = 200" "status_code server_error = 500"
  by (simp_all add: invalid_email_def accepted_def server_error_def)

lemma response_bodies:
  "body invalid_email =
     js ''{'' @ [quotation_mark] @ js ''ok'' @ [quotation_mark] @ js '':false,'' @
     [quotation_mark] @ js ''error'' @ [quotation_mark] @ js '':'' @
     [quotation_mark] @ js ''Invalid email'' @ [quotation_mark] @ js ''}''"
  "body accepted = js ''{'' @ [quotation_mark] @ js ''ok'' @ [quotation_mark] @ js '':true}''"
  "body server_error =
     js ''{'' @ [quotation_mark] @ js ''ok'' @ [quotation_mark] @ js '':false,'' @
     [quotation_mark] @ js ''error'' @ [quotation_mark] @ js '':'' @
     [quotation_mark] @ js ''Server error'' @ [quotation_mark] @ js ''}''"
  by (simp_all add: invalid_email_def accepted_def server_error_def js_def quote_def
        quote_unit_def is_high_surrogate_def is_low_surrogate_def quotation_mark_def
        reverse_solidus_def)

lemma responses_distinct:
  "invalid_email \<noteq> accepted" "invalid_email \<noteq> server_error" "accepted \<noteq> server_error"
  "accepted \<noteq> invalid_email" "server_error \<noteq> invalid_email" "server_error \<noteq> accepted"
  by (simp_all add: invalid_email_def accepted_def server_error_def)

lemma onRequestPost_invalid:
  "read_fields req = Inr (a, n) \<Longrightarrow> \<not> matches EMAIL_RE a \<Longrightarrow>
     onRequestPost req e w = (invalid_email, [])"
  by (simp add: onRequestPost_def try_block_def)

lemma store_result:
  "fst (store req e w a n) = (if store_throws e w then Some PutRejected else None)"
  "snd (store req e w a n) =
     (if WAITLIST e then [KvPut (record_key w) (record_value req w a n)] else [])"
  by (simp_all add: store_def store_throws_def)

lemma notify_result:
  "fst (notify e w a n) = None \<longleftrightarrow> \<not> notify_throws e w"
  by (auto simp: notify_def notify_throws_def split: fetch_outcome.splits option.splits)

lemma notify_no_put: "filter is_put (snd (notify e w a n)) = []"
  by (simp add: notify_def mail_request_def split: fetch_outcome.splits option.splits)

lemma onRequestPost_valid:
  assumes "read_fields req = Inr (a, n)" "matches EMAIL_RE a"
  shows "onRequestPost req e w =
     (case fst (store req e w a n) of
        Some x \<Rightarrow> (server_error, snd (store req e w a n) @ [LogError x])
      | None \<Rightarrow>
          (case fst (notify e w a n) of
             Some x \<Rightarrow>
               (server_error, snd (store req e w a n) @ snd (notify e w a n) @ [LogError x])
           | None \<Rightarrow> (accepted, snd (store req e w a n) @ snd (notify e w a n))))"
  using assms
  by (cases "store req e w a n"; cases "notify e w a n")
     (simp add: onRequestPost_def try_block_def split: option.splits)

lemma valid_response:
  assumes "read_fields req = Inr (a, n)" "matches EMAIL_RE a"
  shows "fst (onRequestPost req e w) = (if downstream_throws e w then server_error else accepted)"
proof (cases "store_throws e w")
  case True
  then show ?thesis
    by (simp add: onRequestPost_valid[OF assms] store_result downstream_throws_def)
next
  case False
  show ?thesis
  proof (cases "fst (notify e w a n)")
    case None
    with False show ?thesis
      using notify_result[of e w a n]
      by (simp add: onRequestPost_valid[OF assms] store_result downstream_throws_def)
  next
    case (Some x)
    with False show ?thesis
      using notify_result[of e w a n]
      by (simp add: onRequestPost_valid[OF assms] store_result downstream_throws_def)
  qed
qed

lemma submit_try_state:
  "isLoading (fst (snd (submit_try endpoint s outcome)))"
  by (simp add: submit_try_def Let_def split: fetch_outcome.splits)

lemma handleSubmit_isLoading:
  "isLoading (fst (handleSubmit endpoint s outcome)) \<longleftrightarrow>
     isLoading s \<and> (trap s \<noteq> [] \<or> \<not> validateEmail (email s))"
  by (cases "submit_try endpoint s outcome")
     (auto simp: handleSubmit_def split: option.splits)

section \<open>The handler and the client agree on the predicate\<close>

text \<open>
  C2. The predicate the handler applies is the client's: on every string, the test of
  \<open>EMAIL_RE\<close> and \<open>validateEmail\<close> agree. The string the handler tests is the
  \<^verbatim>\<open>email\<close> field after \<^verbatim>\<open>String\<close> and \<^verbatim>\<open>trim\<close>: whenever
  that string is \<open>s\<close>, the handler answers 400 "Invalid email" exactly when
  \<open>validateEmail s\<close> is false.
\<close>

theorem handler_predicate:
  "(matches EMAIL_RE s \<longleftrightarrow> validateEmail s) \<and>
   (read_fields req = Inr (s, n) \<longrightarrow>
      (fst (onRequestPost req e w) = invalid_email \<longleftrightarrow> \<not> validateEmail s))"
proof (intro conjI impI)
  show "matches EMAIL_RE s \<longleftrightarrow> validateEmail s" by (rule matches_EMAIL_RE)
  assume f: "read_fields req = Inr (s, n)"
  show "fst (onRequestPost req e w) = invalid_email \<longleftrightarrow> \<not> validateEmail s"
  proof (cases "validateEmail s")
    case True
    then have "matches EMAIL_RE s" by (simp add: matches_EMAIL_RE)
    from valid_response[OF f this] True show ?thesis
      by (simp add: responses_distinct)
  next
    case False
    then have "\<not> matches EMAIL_RE s" by (simp add: matches_EMAIL_RE)
    from onRequestPost_invalid[OF f this] False show ?thesis by simp
  qed
qed

theorem handler_predicate_witness:
  "read_fields sample_request = Inr (js ''a@b.co'', []) \<and>
   validateEmail (js ''a@b.co'') \<and>
   fst (onRequestPost sample_request store_only quiet_world) \<noteq> invalid_email"
proof -
  have f: "read_fields sample_request = Inr (js ''a@b.co'', [])"
    by (simp add: eval_handler eval_regex)
  have v: "validateEmail (js ''a@b.co'')"
    by (simp add: eval_regex)
  from handler_predicate [of "js ''a@b.co''" sample_request "[]" store_only quiet_world] f v
  show ?thesis by simp
qed

text \<open>
  C3, as stated, fails: \<^verbatim>\<open>a@b@c.d\<close> has the form local@domain.tld with the
  non-empty parts \<^verbatim>\<open>a@b\<close>, \<^verbatim>\<open>c\<close> and \<^verbatim>\<open>d\<close> and holds no white
  space, and it is rejected, since the local part holds an at sign.
\<close>

theorem at_sign_in_local_part:
  "js ''a@b@c.d'' = js ''a@b'' @ [at_sign] @ js ''c'' @ [full_stop] @ js ''d'' \<and>
   js ''a@b'' \<noteq> [] \<and> js ''c'' \<noteq> [] \<and> js ''d'' \<noteq> [] \<and>
   filter is_white_space (js ''a@b@c.d'') = [] \<and>
   \<not> validateEmail (js ''a@b@c.d'')"
  by (simp add: eval_regex)

text \<open>
  C3, amended. Every string of the form local@domain.tld that holds no white space and
  whose three parts are non-empty and hold no at sign is accepted, by the client and by
  the handler's pattern.
\<close>

theorem well_formed_accepted:
  assumes "s = l @ [at_sign] @ d @ [full_stop] @ t"
    and "l \<noteq> []" and "d \<noteq> []" and "t \<noteq> []"
    and "\<forall>c \<in> set s. \<not> is_white_space c"
    and "at_sign \<notin> set l" and "at_sign \<notin> set d" and "at_sign \<notin> set t"
  shows "validateEmail s \<and> matches EMAIL_RE s"
proof -
  from assms have "\<forall>c \<in> set (l @ d @ t). \<not> is_white_space c \<and> c \<noteq> at_sign" by auto
  with assms(2-4) have "validateEmail (l @ [at_sign] @ d @ [full_stop] @ t)"
    by (rule validateEmail_parts)
  with assms(1) show ?thesis by (simp add: matches_EMAIL_RE)
qed

theorem well_formed_accepted_witness:
  "validateEmail (js ''a@b.co'') \<and> matches EMAIL_RE (js ''a@b.co'')"
  using well_formed_accepted [of "js ''a@b.co''" "js ''a''" "js ''b''" "js ''co''"]
  by (simp add: js_def at_sign_def full_stop_def is_white_space_def)

section \<open>The responses of the handler\<close>

text \<open>
  C4. When the body of the request cannot be parsed as JSON, the handler goes on with an
  empty object: it answers 400 with the body \<^verbatim>\<open>{"ok":false,"error":"Invalid email"}\<close>,
  not 500, and does nothing else.
\<close>

theorem malformed_body:
  "json_body req = None \<longrightarrow>
     onRequestPost req e w = (invalid_email, []) \<and>
     status_code (fst (onRequestPost req e w)) = 400 \<and>
     body (fst (onRequestPost req e w)) =
       stringify (JObj [(js ''ok'', JBool False), (js ''error'', JStr (js ''Invalid email''))]) \<and>
     status_code (fst (onRequestPost req e w)) \<noteq> 500"
proof
  assume "json_body req = None"
  then have "read_fields req = Inr ([], [])" by (rule read_fields_malformed)
  moreover have "\<not> matches EMAIL_RE []" by (simp add: EMAIL_RE_not_nullable)
  ultimately have "onRequestPost req e w = (invalid_email, [])" by (rule onRequestPost_invalid)
  then show "onRequestPost req e w = (invalid_email, []) \<and>
     status_code (fst (onRequestPost req e w)) = 400 \<and>
     body (fst (onRequestPost req e w)) =
       stringify (JObj [(js ''ok'', JBool False), (js ''error'', JStr (js ''Invalid email''))]) \<and>
     status_code (fst (onRequestPost req e w)) \<noteq> 500"
    by (simp add: invalid_email_def)
qed

theorem malformed_body_witness:
  "onRequestPost \<lparr>json_body = None, headers = []\<rparr> notify_only quiet_world = (invalid_email, []) \<and>
   status_code (fst (onRequestPost \<lparr>json_body = None, headers = []\<rparr> notify_only quiet_world)) = 400"
  using malformed_body [of "\<lparr>json_body = None, headers = []\<rparr>" notify_only quiet_world]
  by (simp add: status_codes)

text \<open>
  C5, as stated, fails: with a valid email and a store configured, a
  \<^verbatim>\<open>put\<close> that rejects is caught by the handler's \<^verbatim>\<open>catch\<close>, and the
  caller gets 500, not 200.
\<close>

theorem store_failure_surfaces:
  "read_fields sample_request = Inr (js ''a@b.co'', []) \<and>
   matches EMAIL_RE (js ''a@b.co'') \<and>
   WAITLIST store_only \<and> \<not> put_resolves (quiet_world\<lparr>put_resolves := False\<rparr>) \<and>
   fst (onRequestPost sample_request store_only (quiet_world\<lparr>put_resolves := False\<rparr>))
     = server_error \<and>
   status_code
     (fst (onRequestPost sample_request store_only (quiet_world\<lparr>put_resolves := False\<rparr>)))
     = 500"
  by (simp add: eval_handler eval_regex status_codes)

text \<open>
  C5, amended. For every request whose email passes validation: when no downstream call
  throws, the handler answers 200 \<^verbatim>\<open>{ok:true}\<close>, and this includes a provider
  response that is not ok and whose body is read, which is only logged; when the store
  write rejects, the request to the provider rejects, or the reading of the provider's
  error body rejects, the handler answers 500 \<^verbatim>\<open>{ok:false,error:"Server error"}\<close>,
  and the last thing it does is to log the exception.
\<close>

theorem downstream_outcome:
  assumes "read_fields req = Inr (a, n)" and "matches EMAIL_RE a"
  shows
    "(\<not> downstream_throws e w \<longrightarrow>
        fst (onRequestPost req e w) = accepted \<and>
        status_code (fst (onRequestPost req e w)) = 200) \<and>
     (downstream_throws e w \<longrightarrow>
        fst (onRequestPost req e w) = server_error \<and>
        status_code (fst (onRequestPost req e w)) = 500 \<and>
        (\<exists>x. last (snd (onRequestPost req e w)) = LogError x))"
proof (intro conjI impI)
  assume "\<not> downstream_throws e w"
  then show "fst (onRequestPost req e w) = accepted"
    by (simp add: valid_response[OF assms])
  then show "status_code (fst (onRequestPost req e w)) = 200"
    by (simp add: status_codes)
next
  assume t: "downstream_throws e w"
  then show "fst (onRequestPost req e w) = server_error"
    by (simp add: valid_response[OF assms])
  then show "status_code (fst (onRequestPost req e w)) = 500"
    by (simp add: status_codes)
  show "\<exists>x. last (snd (onRequestPost req e w)) = LogError x"
  proof (cases "store_throws e w")
    case True
    then show ?thesis
      by (simp add: onRequestPost_valid[OF assms] store_result)
  next
    case False
    with t have "notify_throws e w" by (simp add: downstream_throws_def)
    then obtain x where "fst (notify e w a n) = Some x"
      using notify_result[of e w a n] by auto
    with False show ?thesis
      by (simp add: onRequestPost_valid[OF assms] store_result)
  qed
qed

theorem downstream_outcome_witness:
  "fst (onRequestPost sample_request notify_only (quiet_world\<lparr>provider := Rejects\<rparr>))
     = server_error \<and>
   fst (onRequestPost sample_request notify_only quiet_world) = accepted"
proof -
  have f: "read_fields sample_request = Inr (js ''a@b.co'', [])"
    by (simp add: eval_handler eval_regex)
  have m: "matches EMAIL_RE (js ''a@b.co'')"
    by (simp add: eval_regex)
  have "downstream_throws notify_only (quiet_world\<lparr>provider := Rejects\<rparr>)"
    by (simp add: downstream_throws_def notify_throws_def store_throws_def eval_handler js_def)
  moreover have "\<not> downstream_throws notify_only quiet_world"
    by (simp add: downstream_throws_def notify_throws_def store_throws_def eval_handler)
  ultimately show ?thesis
    using downstream_outcome [OF f m, of notify_only "quiet_world\<lparr>provider := Rejects\<rparr>"]
      downstream_outcome [OF f m, of notify_only quiet_world]
    by simp
qed

text \<open>
  C6, as stated, fails: when the provider answers with a response that is not ok, the
  handler awaits \<^verbatim>\<open>r.text()\<close> inside the \<^verbatim>\<open>try\<close> in order to log it; if
  reading the body rejects, the \<^verbatim>\<open>catch\<close> answers 500.
\<close>

theorem provider_body_unreadable:
  "read_fields sample_request = Inr (js ''a@b.co'', []) \<and>
   matches EMAIL_RE (js ''a@b.co'') \<and>
   configured (RESEND_API_KEY notify_only) \<and> configured (NOTIFY_TO notify_only) \<and>
   provider (quiet_world\<lparr>provider := Responds False 503 None\<rparr>) = Responds False 503 None \<and>
   mail_request notify_only (quiet_world\<lparr>provider := Responds False 503 None\<rparr>) (js ''a@b.co'') []
     \<in> set (snd (onRequestPost sample_request notify_only
                     (quiet_world\<lparr>provider := Responds False 503 None\<rparr>))) \<and>
   fst (onRequestPost sample_request notify_only (quiet_world\<lparr>provider := Responds False 503 None\<rparr>))
     = server_error \<and>
   status_code
     (fst (onRequestPost sample_request notify_only (quiet_world\<lparr>provider := Responds False 503 None\<rparr>)))
     = 500"
proof -
  let ?w = "quiet_world\<lparr>provider := Responds False 503 None\<rparr>"
  have f: "read_fields sample_request = Inr (js ''a@b.co'', [])"
    by (simp add: eval_handler eval_regex)
  have m: "matches EMAIL_RE (js ''a@b.co'')"
    by (simp add: eval_regex)
  have k: "configured (RESEND_API_KEY notify_only)" "configured (NOTIFY_TO notify_only)"
    by (simp_all add: eval_handler js_def)
  have p: "provider ?w = Responds False 503 None"
    by (simp add: quiet_world_def)
  have r: "onRequestPost sample_request notify_only ?w =
      (server_error, [mail_request notify_only ?w (js ''a@b.co'') [], LogError TextRejected])"
    by (simp add: onRequestPost_valid[OF f m] store_def notify_def k p)
       (simp add: notify_only_def)
  from f m k p r show ?thesis by (simp add: status_codes)
qed

text \<open>
  C6, amended. For every request whose email passes validation and with the notification
  configured: when the request to the provider is issued and the provider answers it
  with a response that is not ok and whose body can be read, the handler still answers
  200 \<^verbatim>\<open>{ok:true}\<close>, the very response it gives when the provider answers with
  success; the failure is logged.
\<close>

theorem provider_failure_not_surfaced:
  assumes "read_fields req = Inr (a, n)" and "matches EMAIL_RE a"
    and "configured (RESEND_API_KEY e)" and "configured (NOTIFY_TO e)"
    and "mail_request e w a n \<in> set (snd (onRequestPost req e w))"
    and "provider w = Responds False code (Some t)"
  shows "fst (onRequestPost req e w) = accepted \<and>
         status_code (fst (onRequestPost req e w)) = 200 \<and>
         fst (onRequestPost req e w)
           = fst (onRequestPost req e (w\<lparr>provider := Responds True 200 (Some t')\<rparr>)) \<and>
         LogResendFailed code t \<in> set (snd (onRequestPost req e w))"
proof -
  have stored: "\<not> store_throws e w"
  proof
    assume "store_throws e w"
    then have "snd (onRequestPost req e w) =
        [KvPut (record_key w) (record_value req w a n), LogError PutRejected]"
      by (simp add: onRequestPost_valid[OF assms(1,2)] store_result store_throws_def)
    with assms(5) show False by (simp add: mail_request_def)
  qed
  have quiet: "\<not> notify_throws e w"
    using assms(6) by (simp add: notify_throws_def)
  have n: "notify e w a n = (None, [mail_request e w a n, LogResendFailed code t])"
    using assms(3,4,6) by (simp add: notify_def)
  have 1: "fst (onRequestPost req e w) = accepted"
    using stored quiet by (simp add: valid_response[OF assms(1,2)] downstream_throws_def)
  have "\<not> downstream_throws e (w\<lparr>provider := Responds True 200 (Some t')\<rparr>)"
    using stored by (simp add: downstream_throws_def notify_throws_def store_throws_def)
  then have 2: "fst (onRequestPost req e (w\<lparr>provider := Responds True 200 (Some t')\<rparr>)) = accepted"
    by (simp add: valid_response[OF assms(1,2)])
  have 3: "LogResendFailed code t \<in> set (snd (onRequestPost req e w))"
    using stored n by (simp add: onRequestPost_valid[OF assms(1,2)] store_result)
  from 1 2 3 show ?thesis by (simp add: status_codes)
qed

theorem provider_failure_not_surfaced_witness:
  "fst (onRequestPost sample_request notify_only
          (quiet_world\<lparr>provider := Responds False 503 (Some (js ''down''))\<rparr>)) = accepted \<and>
   LogResendFailed 503 (js ''down'') \<in> set (snd (onRequestPost sample_request notify_only
          (quiet_world\<lparr>provider := Responds False 503 (Some (js ''down''))\<rparr>)))"
proof -
  let ?w = "quiet_world\<lparr>provider := Responds False 503 (Some (js ''down''))\<rparr>"
  have f: "read_fields sample_request = Inr (js ''a@b.co'', [])"
    by (simp add: eval_handler eval_regex)
  have m: "matches EMAIL_RE (js ''a@b.co'')"
    by (simp add: eval_regex)
  have k: "configured (RESEND_API_KEY notify_only)" "configured (NOTIFY_TO notify_only)"
    by (simp_all add: eval_handler js_def)
  have p: "provider ?w = Responds False 503 (Some (js ''down''))"
    by (simp add: quiet_world_def)
  have "snd (onRequestPost sample_request notify_only ?w) =
      [mail_request notify_only ?w (js ''a@b.co'') [], LogResendFailed 503 (js ''down'')]"
    by (simp add: onRequestPost_valid[OF f m] store_def notify_def k p)
       (simp add: notify_only_def)
  then have r: "mail_request notify_only ?w (js ''a@b.co'') []
      \<in> set (snd (onRequestPost sample_request notify_only ?w))"
    by simp
  from provider_failure_not_surfaced [OF f m k r p] show ?thesis by simp
qed

text \<open>
  C7, as stated, fails: the record written holds the two header fields under the names
  \<^verbatim>\<open>ua\<close> and \<^verbatim>\<open>ip\<close>, so its value is not the serialisation of an object
  with the fields \<^verbatim>\<open>userAgent\<close> and \<^verbatim>\<open>originIp\<close>.
\<close>

theorem record_field_names:
  "read_fields sample_request = Inr (js ''a@b.co'', []) \<and>
   matches EMAIL_RE (js ''a@b.co'') \<and> WAITLIST store_only \<and>
   filter is_put (snd (onRequestPost sample_request store_only quiet_world))
     = [KvPut (record_key quiet_world) (record_value sample_request quiet_world (js ''a@b.co'') [])] \<and>
   record_value sample_request quiet_world (js ''a@b.co'') []
     \<noteq> spec_record_value sample_request quiet_world (js ''a@b.co'') []"
  by (simp add: eval_handler eval_regex record_value_def spec_record_value_def
        nullable_string_def quote_def quote_unit_def is_high_surrogate_def is_low_surrogate_def
        quotation_mark_def reverse_solidus_def)

text \<open>
  C7, amended. For every submission that passes validation, with a store configured, the
  handler issues exactly one \<^verbatim>\<open>put\<close>: its key is \<^verbatim>\<open>waitlist:\<close>, the time in
  milliseconds, a colon and the random UUID; its value is the JSON serialisation of the
  object with the fields \<^verbatim>\<open>email\<close>, \<^verbatim>\<open>note\<close>, \<^verbatim>\<open>ua\<close> (the
  \<^verbatim>\<open>user-agent\<close> header, or null), \<^verbatim>\<open>ip\<close> (the \<^verbatim>\<open>cf-connecting-ip\<close>
  header, or null) and \<^verbatim>\<open>at\<close> (the ISO timestamp), in this order.
\<close>

theorem one_record_written:
  assumes "read_fields req = Inr (a, n)" and "matches EMAIL_RE a" and "WAITLIST e"
  shows "filter is_put (snd (onRequestPost req e w)) =
     [KvPut (js ''waitlist:'' @ number_text (date_now w) @ js '':'' @ random_uuid w)
        (stringify (JObj
           [(js ''email'', JStr a), (js ''note'', JStr n),
            (js ''ua'', nullable_string (map_of (headers req) (js ''user-agent''))),
            (js ''ip'', nullable_string (map_of (headers req) (js ''cf-connecting-ip''))),
            (js ''at'', JStr (iso_record w))]))]"
proof -
  have "filter is_put (snd (onRequestPost req e w)) =
      [KvPut (record_key w) (record_value req w a n)]"
    using assms(3)
    by (simp add: onRequestPost_valid[OF assms(1,2)] store_result notify_no_put
          split: option.splits)
  then show ?thesis by (simp only: record_key_def record_value_def)
qed

theorem one_record_written_witness:
  "filter is_put (snd (onRequestPost sample_request store_only quiet_world)) =
     [KvPut (js ''waitlist:1700000000000:u-1'')
        (stringify (JObj
           [(js ''email'', JStr (js ''a@b.co'')), (js ''note'', JStr []),
            (js ''ua'', JStr (js ''curl'')), (js ''ip'', JNull),
            (js ''at'', JStr (js ''2025-01-01T00:00:00.000Z''))]))]"
proof -
  have f: "read_fields sample_request = Inr (js ''a@b.co'', [])"
    by (simp add: eval_handler eval_regex)
  have m: "matches EMAIL_RE (js ''a@b.co'')"
    by (simp add: eval_regex)
  have s: "WAITLIST store_only"
    by (simp add: store_only_def)
  have k: "js ''waitlist:'' @ number_text (date_now quiet_world) @ js '':'' @ random_uuid quiet_world
      = js ''waitlist:1700000000000:u-1''"
    by (simp add: quiet_world_def number_text_def digits.simps js_def)
  have h: "nullable_string (map_of (headers sample_request) (js ''user-agent'')) = JStr (js ''curl'')"
    "nullable_string (map_of (headers sample_request) (js ''cf-connecting-ip'')) = JNull"
    by (simp_all add: sample_request_def nullable_string_def js_def)
  have i: "iso_record quiet_world = js ''2025-01-01T00:00:00.000Z''"
    by (simp add: quiet_world_def)
  from one_record_written [OF f m s, of quiet_world] show ?thesis
    by (simp only: k h i)
qed

section \<open>The client\<close>

text \<open>
  C8. When the honeypot field is not empty, \<^verbatim>\<open>handleSubmit\<close> changes nothing:
  no request is issued, and the state of the component (email, note, isLoading and
  status among it) is the one it started from.
\<close>

theorem honeypot_silent:
  "trap s \<noteq> [] \<longrightarrow> handleSubmit endpoint s outcome = (s, [])"
  by (simp add: handleSubmit_def)

theorem honeypot_silent_witness:
  "handleSubmit (INTEREST_ENDPOINT None) (typed_form\<lparr>trap := js ''x''\<rparr>) Rejects
     = (typed_form\<lparr>trap := js ''x''\<rparr>, [])"
  using honeypot_silent [of "typed_form\<lparr>trap := js ''x''\<rparr>" "INTEREST_ENDPOINT None" Rejects]
  by (simp add: js_def)

text \<open>
  C9, as stated, fails: the honeypot abort returns before the flag is touched. When the
  honeypot is filled while a first submission awaits its response, a second
  \<^verbatim>\<open>handleSubmit\<close> returns with the flag still true.
\<close>

theorem early_return_keeps_flag:
  "trap ((awaiting typed_form)\<lparr>trap := js ''x''\<rparr>) \<noteq> [] \<and>
   isLoading (fst (handleSubmit (INTEREST_ENDPOINT None)
                     ((awaiting typed_form)\<lparr>trap := js ''x''\<rparr>) Rejects))"
  by (simp add: handleSubmit_def awaiting_def typed_form_def js_def)

text \<open>
  C9, amended. Every run of \<^verbatim>\<open>handleSubmit\<close> that enters the \<^verbatim>\<open>try\<close>
  (successful response, response that is not ok, exception thrown during the network
  call) returns with the in-flight flag false, from any state. The honeypot abort and
  the validation failure return before the flag is touched and leave it as it was on
  entry.
\<close>

theorem isLoading_released:
  "(trap s = [] \<and> validateEmail (email s) \<longrightarrow>
      \<not> isLoading (fst (handleSubmit endpoint s outcome))) \<and>
   (trap s \<noteq> [] \<or> \<not> validateEmail (email s) \<longrightarrow>
      isLoading (fst (handleSubmit endpoint s outcome)) = isLoading s)"
  by (auto simp: handleSubmit_isLoading)

theorem isLoading_released_witness:
  "\<not> isLoading (fst (handleSubmit (INTEREST_ENDPOINT None) (awaiting typed_form) Rejects)) \<and>
   \<not> isLoading (fst (handleSubmit (INTEREST_ENDPOINT None) (awaiting typed_form)
        (Responds False 500 None))) \<and>
   \<not> isLoading (fst (handleSubmit (INTEREST_ENDPOINT None) (awaiting typed_form)
        (Responds True 200 None))) \<and>
   isLoading (fst (handleSubmit (INTEREST_ENDPOINT None) (typed_form\<lparr>trap := js ''x''\<rparr>) Rejects))
     = isLoading (typed_form\<lparr>trap := js ''x''\<rparr>)"
proof -
  have v: "trap (awaiting typed_form) = [] \<and> validateEmail (email (awaiting typed_form))"
    by (simp add: awaiting_def typed_form_def eval_regex)
  have t: "trap (typed_form\<lparr>trap := js ''x''\<rparr>) \<noteq> []
      \<or> \<not> validateEmail (email (typed_form\<lparr>trap := js ''x''\<rparr>))"
    by (simp add: js_def)
  from v t
    isLoading_released [of "awaiting typed_form" "INTEREST_ENDPOINT None" Rejects]
    isLoading_released [of "awaiting typed_form" "INTEREST_ENDPOINT None" "Responds False 500 None"]
    isLoading_released [of "awaiting typed_form" "INTEREST_ENDPOINT None" "Responds True 200 None"]
    isLoading_released [of "typed_form\<lparr>trap := js ''x''\<rparr>" "INTEREST_ENDPOINT None" Rejects]
  show ?thesis by blast
qed

text \<open>
  C10. An email \<open>s\<close> that starts or ends with white space and is valid once trimmed
  is rejected by the client, which tests it untrimmed: \<^verbatim>\<open>handleSubmit\<close> issues no
  request and, the honeypot being empty, sets the failure status. The handler, given a
  JSON object whose \<^verbatim>\<open>email\<close> is \<open>s\<close> (and whose note converts to a string),
  trims it first and accepts it: it never answers 400, and it answers 200 unless a
  downstream call throws.
\<close>

theorem trim_mismatch:
  assumes "s \<noteq> []" and "is_white_space (hd s) \<or> is_white_space (last s)"
    and "validateEmail (trim s)"
  shows "\<not> validateEmail s \<and>
     (email st = s \<longrightarrow>
        snd (handleSubmit endpoint st outcome) = [] \<and>
        (trap st = [] \<longrightarrow>
           fst (handleSubmit endpoint st outcome) = st\<lparr>status := Some (False, msg_invalid)\<rparr>)) \<and>
     (json_body req = Some (JObj props) \<and> map_of props (js ''email'') = Some (JStr s) \<and>
      String (or_empty (map_of props (js ''note''))) = Inr n \<longrightarrow>
        fst (onRequestPost req e w) \<noteq> invalid_email \<and>
        (\<not> downstream_throws e w \<longrightarrow>
           fst (onRequestPost req e w) = accepted \<and>
           status_code (fst (onRequestPost req e w)) = 200))"
proof -
  have invalid: "\<not> validateEmail s"
  proof
    assume "validateEmail s"
    then have "\<forall>c \<in> set s. \<not> is_white_space c" by (rule validateEmail_units)
    moreover from assms(1) have "hd s \<in> set s" "last s \<in> set s" by simp_all
    ultimately show False using assms(2) by blast
  qed
  have client: "email st = s \<longrightarrow>
        snd (handleSubmit endpoint st outcome) = [] \<and>
        (trap st = [] \<longrightarrow>
           fst (handleSubmit endpoint st outcome) = st\<lparr>status := Some (False, msg_invalid)\<rparr>)"
    using invalid by (simp add: handleSubmit_def)
  have handler: "fst (onRequestPost req e w) \<noteq> invalid_email \<and>
        (\<not> downstream_throws e w \<longrightarrow>
           fst (onRequestPost req e w) = accepted \<and>
           status_code (fst (onRequestPost req e w)) = 200)"
    if h: "json_body req = Some (JObj props) \<and> map_of props (js ''email'') = Some (JStr s) \<and>
      String (or_empty (map_of props (js ''note''))) = Inr n"
  proof -
    from h assms(1) have f: "read_fields req = Inr (trim s, trim n)"
      by (simp add: read_fields_def or_empty_def Let_def)
    from assms(3) have m: "matches EMAIL_RE (trim s)" by (simp add: matches_EMAIL_RE)
    show ?thesis
      by (simp add: valid_response[OF f m] responses_distinct status_codes)
  qed
  from invalid client handler show ?thesis by blast
qed

theorem trim_mismatch_witness:
  "\<not> validateEmail (js '' a@b.co'') \<and>
   handleSubmit (INTEREST_ENDPOINT None) (typed_form\<lparr>email := js '' a@b.co''\<rparr>) Rejects
     = (typed_form\<lparr>email := js '' a@b.co'', status := Some (False, msg_invalid)\<rparr>, []) \<and>
   fst (onRequestPost padded_request store_only quiet_world) = accepted"
proof -
  have 1: "js '' a@b.co'' \<noteq> []" by (simp add: js_def)
  have 2: "is_white_space (hd (js '' a@b.co'')) \<or> is_white_space (last (js '' a@b.co''))"
    by (simp add: js_def is_white_space_def)
  have 3: "validateEmail (trim (js '' a@b.co''))"
    by (simp add: trim_def eval_regex)
  have 4: "trap (typed_form\<lparr>email := js '' a@b.co''\<rparr>) = []
      \<and> email (typed_form\<lparr>email := js '' a@b.co''\<rparr>) = js '' a@b.co''"
    by (simp add: typed_form_def)
  have 5: "json_body padded_request = Some (JObj [(js ''email'', JStr (js '' a@b.co''))]) \<and>
     map_of [(js ''email'', JStr (js '' a@b.co''))] (js ''email'') = Some (JStr (js '' a@b.co'')) \<and>
     String (or_empty (map_of [(js ''email'', JStr (js '' a@b.co''))] (js ''note''))) = Inr []"
    by (simp add: padded_request_def or_empty_def js_def)
  have 6: "\<not> downstream_throws store_only quiet_world"
    by (simp add: downstream_throws_def store_throws_def notify_throws_def store_only_def
          quiet_world_def configured_def)
  from trim_mismatch [OF 1 2 3, of "typed_form\<lparr>email := js '' a@b.co''\<rparr>"
      "INTEREST_ENDPOINT None" Rejects padded_request "[(js ''email'', JStr (js '' a@b.co''))]"
      "[]" store_only quiet_world] 4 5 6
  show ?thesis by (simp add: prod_eq_iff)
qed

end
